theory Spec2Isabelle
  imports Main "HOL-Library.Word" "HOL-Library.Sublist"
begin

section \<open>JavaScript strings\<close>

text \<open>
  A JavaScript string is a sequence of UTF-16 code units. Every Hangul syllable used by
  \<^verbatim>\<open>parser.js\<close> lies in the basic plane, so it is one code unit. Literals of the
  source are written as lists of code units, with a romanisation in the comment.
\<close>

type_synonym code_unit = "16 word"
type_synonym jsstring = "code_unit list"

definition ascii :: "string \<Rightarrow> jsstring" where
  "ascii s = map of_char s"

text \<open>
  \<^verbatim>\<open>String.prototype.trim\<close> and the regular expression class \<^verbatim>\<open>\s\<close> use the same set:
  the WhiteSpace and LineTerminator productions of ECMAScript.
\<close>

definition is_white_space :: "code_unit \<Rightarrow> bool" where
  "is_white_space c \<longleftrightarrow>
     c = 0x09 \<or> c = 0x0A \<or> c = 0x0B \<or> c = 0x0C \<or> c = 0x0D \<or> c = 0x20 \<or> c = 0xA0 \<or>
     c = 0x1680 \<or> (0x2000 \<le> c \<and> c \<le> 0x200A) \<or> c = 0x2028 \<or> c = 0x2029 \<or>
     c = 0x202F \<or> c = 0x205F \<or> c = 0x3000 \<or> c = 0xFEFF"

text \<open>The characters that \<^verbatim>\<open>.\<close> of a regular expression without the s flag refuses.\<close>

definition is_line_terminator :: "code_unit \<Rightarrow> bool" where
  "is_line_terminator c \<longleftrightarrow> c = 0x0A \<or> c = 0x0D \<or> c = 0x2028 \<or> c = 0x2029"

definition is_digit :: "code_unit \<Rightarrow> bool" where
  "is_digit c \<longleftrightarrow> 0x30 \<le> c \<and> c \<le> 0x39"

definition trim :: "jsstring \<Rightarrow> jsstring" where
  "trim s = rev (dropWhile is_white_space (rev (dropWhile is_white_space s)))"

text \<open>\<^verbatim>\<open>content.split('\n')\<close>: the empty string gives one empty line.\<close>

fun split_nl :: "jsstring \<Rightarrow> jsstring list" where
  "split_nl [] = [[]]"
| "split_nl (c # cs) =
     (if c = 0x0A then [] # split_nl cs
      else (case split_nl cs of l # ls \<Rightarrow> (c # l) # ls | [] \<Rightarrow> [[c]]))"

definition startsWith :: "jsstring \<Rightarrow> jsstring \<Rightarrow> bool" where
  "startsWith s pat = prefix pat s"

fun js_includes :: "jsstring \<Rightarrow> jsstring \<Rightarrow> bool" where
  "js_includes [] pat = (pat = [])"
| "js_includes (c # cs) pat = (prefix pat (c # cs) \<or> js_includes cs pat)"

text \<open>
  \<^verbatim>\<open>s.replace(pat, rep)\<close> with a string pattern: only the first occurrence is replaced.
  The source's replacement is always the empty string, which has no \<^verbatim>\<open>$\<close> pattern.
\<close>

fun replace :: "jsstring \<Rightarrow> jsstring \<Rightarrow> jsstring \<Rightarrow> jsstring" where
  "replace [] pat rep = (if pat = [] then rep else [])"
| "replace (c # cs) pat rep =
     (if prefix pat (c # cs) then rep @ drop (length pat) (c # cs)
      else c # replace cs pat rep)"

section \<open>The literals of parser.js\<close>

definition title_marker :: jsstring where \<comment> \<open>"nimgwa kakaotok daehwa"\<close>
  "title_marker = [0xB2D8, 0xACFC, 0x20, 0xCE74, 0xCE74, 0xC624, 0xD1A1, 0x20, 0xB300, 0xD654]"

definition title_suffix :: jsstring where \<comment> \<open>the same with a leading space\<close>
  "title_suffix = 0x20 # title_marker"

definition saveDate_marker :: jsstring where \<comment> \<open>"jeojanghan naljja :"\<close>
  "saveDate_marker = [0xC800, 0xC7A5, 0xD55C, 0x20, 0xB0A0, 0xC9DC, 0x20, 0x3A]"

definition saveDate_prefix :: jsstring where \<comment> \<open>the same with a trailing space\<close>
  "saveDate_prefix = saveDate_marker @ [0x20]"

definition dashes :: jsstring where \<comment> \<open>fifteen hyphens\<close>
  "dashes = ascii ''---------------''"

definition nyeon :: code_unit where "nyeon = 0xB144" \<comment> \<open>year\<close>
definition wol :: code_unit where "wol = 0xC6D4" \<comment> \<open>month\<close>
definition il :: code_unit where "il = 0xC77C" \<comment> \<open>day\<close>

definition photo :: jsstring where \<comment> \<open>"sajin"\<close>
  "photo = [0xC0AC, 0xC9C4]"
definition video :: jsstring where \<comment> \<open>"dongyeongsang"\<close>
  "video = [0xB3D9, 0xC601, 0xC0C1]"
definition photos :: jsstring where \<comment> \<open>"sajin yeoreo jang"\<close>
  "photos = [0xC0AC, 0xC9C4, 0x20, 0xC5EC, 0xB7EC, 0x20, 0xC7A5]"
definition emoticon :: jsstring where \<comment> \<open>"imotikon"\<close>
  "emoticon = [0xC774, 0xBAA8, 0xD2F0, 0xCF58]"
definition emoticon_colon :: jsstring where
  "emoticon_colon = emoticon @ [0x3A]"
definition http :: jsstring where
  "http = ascii ''http://''"
definition https :: jsstring where
  "https = ascii ''https://''"
definition file_marker :: jsstring where \<comment> \<open>"pail:"\<close>
  "file_marker = [0xD30C, 0xC77C, 0x3A]"
definition voice :: jsstring where \<comment> \<open>"eumseongmesiji"\<close>
  "voice = [0xC74C, 0xC131, 0xBA54, 0xC2DC, 0xC9C0]"
definition joined :: jsstring where \<comment> \<open>"nimi deureowatseumnida"\<close>
  "joined = [0xB2D8, 0xC774, 0x20, 0xB4E4, 0xC5B4, 0xC654, 0xC2B5, 0xB2C8, 0xB2E4]"
definition left_room :: jsstring where \<comment> \<open>"nimi nagatseumnida"\<close>
  "left_room = [0xB2D8, 0xC774, 0x20, 0xB098, 0xAC14, 0xC2B5, 0xB2C8, 0xB2E4]"
definition room_opened :: jsstring where \<comment> \<open>"daehwabangeul gaeseolhaetseumnida"\<close>
  "room_opened = [0xB300, 0xD654, 0xBC29, 0xC744, 0x20, 0xAC1C, 0xC124, 0xD588, 0xC2B5, 0xB2C8, 0xB2E4]"

section \<open>detectMessageType\<close>

datatype message_type =
  TEmpty | TMedia | TEmoticon | TLink | TFile | TVoice | TSystem | TText

text \<open>
  The regular expression \<^verbatim>\<open>/\.(pdf|doc|docx|xls|xlsx|ppt|pptx|txt|zip|rar)$/i\<close>. It has no
  m flag, so \<^verbatim>\<open>$\<close> is the end of the string: the content ends with a dot and one of the
  extensions. With the i flag and no u flag a pattern letter a-z matches exactly itself
  and its ASCII capital (canonicalisation never maps a character outside ASCII into ASCII).
\<close>

definition ascii_lower :: "code_unit \<Rightarrow> code_unit" where
  "ascii_lower c = (if 0x41 \<le> c \<and> c \<le> 0x5A then c + 0x20 else c)"

definition ends_with :: "jsstring \<Rightarrow> jsstring \<Rightarrow> bool" where
  "ends_with s pat = prefix (rev pat) (rev s)"

definition extensions :: "jsstring list" where
  "extensions = map ascii [''pdf'', ''doc'', ''docx'', ''xls'', ''xlsx'', ''ppt'', ''pptx'',
     ''txt'', ''zip'', ''rar'']"

definition file_extension_match :: "jsstring \<Rightarrow> bool" where
  "file_extension_match content =
     list_ex (\<lambda>e. ends_with (map ascii_lower content) (0x2E # e)) extensions"

definition detectMessageType :: "jsstring \<Rightarrow> message_type" where
  "detectMessageType content =
     (if content = [] then TEmpty
      else if content = photo \<or> content = video \<or> content = photos then TMedia
      else if content = emoticon \<or> startsWith content emoticon_colon then TEmoticon
      else if js_includes content http \<or> js_includes content https then TLink
      else if js_includes content file_marker \<or> file_extension_match content then TFile
      else if content = voice \<or> js_includes content voice then TVoice
      else if js_includes content joined \<or> js_includes content left_room
              \<or> js_includes content room_opened then TSystem
      else TText)"

section \<open>The two regular expressions of parse\<close>

definition skip_spaces :: "jsstring \<Rightarrow> jsstring" where \<comment> \<open>a greedy \<^verbatim>\<open>\s*\<close>\<close>
  "skip_spaces s = dropWhile is_white_space s"

fun expect :: "code_unit \<Rightarrow> jsstring \<Rightarrow> jsstring option" where
  "expect c [] = None"
| "expect c (x # r) = (if x = c then Some r else None)"

text \<open>
  \<^verbatim>\<open>\[([^\]]+)\]\<close>: an opening bracket, the longest run of characters other than the closing
  bracket, which must not be empty, and the closing bracket. The run cannot be shortened
  by backtracking, since the character after a shorter run is not a closing bracket.
\<close>

definition bracketed :: "jsstring \<Rightarrow> (jsstring \<times> jsstring) option" where
  "bracketed s =
     (case expect 0x5B s of
        None \<Rightarrow> None
      | Some r \<Rightarrow>
          (let g = takeWhile (\<lambda>c. c \<noteq> 0x5D) r
           in if g = [] then None
              else (case expect 0x5D (dropWhile (\<lambda>c. c \<noteq> 0x5D) r) of
                      None \<Rightarrow> None
                    | Some rest \<Rightarrow> Some (g, rest))))"

text \<open>
  \<^verbatim>\<open>/^\[([^\]]+)\]\s*\[([^\]]+)\]\s*(.*)$/\<close>, with no flag: \<^verbatim>\<open>^\<close> and \<^verbatim>\<open>$\<close> are the two ends
  of the string and \<^verbatim>\<open>.\<close> refuses a line terminator. Each \<^verbatim>\<open>\s*\<close> takes all the white
  space there is: what must follow it (a bracket, or for the last one a rest without line
  terminator up to the end) is no easier to find after fewer spaces. The result is the
  three groups, or \<open>None\<close> for JavaScript's \<^verbatim>\<open>null\<close>.
\<close>

definition messagePattern :: "jsstring \<Rightarrow> (jsstring \<times> jsstring \<times> jsstring) option" where
  "messagePattern line =
     (case bracketed line of
        None \<Rightarrow> None
      | Some (sender, r1) \<Rightarrow>
          (case bracketed (skip_spaces r1) of
             None \<Rightarrow> None
           | Some (time, r2) \<Rightarrow>
               (let content = skip_spaces r2
                in if list_ex is_line_terminator content then None
                   else Some (sender, time, content))))"

text \<open>
  \<^verbatim>\<open>(\d{1,2})\<close> before a literal that is not a digit: two digits if there are two, else
  one. Giving the second digit back never helps, the literal would then meet a digit.
\<close>

fun digits_1_2 :: "jsstring \<Rightarrow> (jsstring \<times> jsstring) option" where
  "digits_1_2 (a # b # r) =
     (if is_digit a \<and> is_digit b then Some ([a, b], r)
      else if is_digit a then Some ([a], b # r)
      else None)"
| "digits_1_2 [a] = (if is_digit a then Some ([a], []) else None)"
| "digits_1_2 [] = None"

text \<open>
  \<^verbatim>\<open>/(\d{4})Y\s*(\d{1,2})M\s*(\d{1,2})D\s*(\S+)/\<close> tried at the start of \<open>s\<close>, where Y, M
  and D stand for the Hangul characters \<open>nyeon\<close>, \<open>wol\<close> and \<open>il\<close> of the source. The
  last group is the longest run of characters that are not white space, and must not be
  empty.
\<close>

definition dateMatch_at ::
  "jsstring \<Rightarrow> (jsstring \<times> jsstring \<times> jsstring \<times> jsstring) option" where
  "dateMatch_at s =
     (case s of
        y1 # y2 # y3 # y4 # r0 \<Rightarrow>
          if is_digit y1 \<and> is_digit y2 \<and> is_digit y3 \<and> is_digit y4 then
            (case expect nyeon r0 of None \<Rightarrow> None | Some r1 \<Rightarrow>
            (case digits_1_2 (skip_spaces r1) of None \<Rightarrow> None | Some (month, r2) \<Rightarrow>
            (case expect wol r2 of None \<Rightarrow> None | Some r3 \<Rightarrow>
            (case digits_1_2 (skip_spaces r3) of None \<Rightarrow> None | Some (day, r4) \<Rightarrow>
            (case expect il r4 of None \<Rightarrow> None | Some r5 \<Rightarrow>
               (let dayOfWeek = takeWhile (\<lambda>c. \<not> is_white_space c) (skip_spaces r5)
                in if dayOfWeek = [] then None
                   else Some ([y1, y2, y3, y4], month, day, dayOfWeek)))))))
          else None
      | _ \<Rightarrow> None)"

text \<open>The expression is not anchored: the leftmost position where it matches wins.\<close>

fun dateMatch :: "jsstring \<Rightarrow> (jsstring \<times> jsstring \<times> jsstring \<times> jsstring) option" where
  "dateMatch [] = None"
| "dateMatch (c # cs) =
     (case dateMatch_at (c # cs) of Some g \<Rightarrow> Some g | None \<Rightarrow> dateMatch cs)"

definition extractDate :: "jsstring \<Rightarrow> jsstring" where
  "extractDate line =
     (case dateMatch line of
        Some (year, month, day, dayOfWeek) \<Rightarrow>
          year @ [nyeon, 0x20] @ month @ [wol, 0x20] @ day @ [il, 0x20] @ dayOfWeek
      | None \<Rightarrow> line)"

section \<open>The chat data and parse\<close>

record message =
  sender :: jsstring
  time :: jsstring
  content :: jsstring
  date :: jsstring
  messageType :: message_type
  raw :: jsstring

text \<open>
  An entry of \<^verbatim>\<open>chatData.messages\<close> is an object whose \<^verbatim>\<open>type\<close> is \<^verbatim>\<open>'date'\<close> (with the
  fields \<^verbatim>\<open>date\<close> and \<^verbatim>\<open>raw\<close>) or \<^verbatim>\<open>'message'\<close>.
\<close>

datatype event =
  is_DateEvent: DateEvent (marker_date: jsstring) (marker_raw: jsstring)
| is_MessageEvent: MessageEvent message

record chatData =
  title :: jsstring
  saveDate :: jsstring
  messages :: "event list"

text \<open>The constructor: the \<^verbatim>\<open>chatData\<close> field of a new parser.\<close>

definition new_KakaoTalkParser :: chatData where
  "new_KakaoTalkParser = \<lparr>title = [], saveDate = [], messages = []\<rparr>"

text \<open>
  The state of the loop of \<^verbatim>\<open>parse\<close>: the field \<^verbatim>\<open>this.chatData\<close> and the two locals.
\<close>

record parse_state =
  chat :: chatData
  currentDate :: jsstring
  currentMessage :: "message option"

definition push :: "event \<Rightarrow> parse_state \<Rightarrow> parse_state" where
  "push e st = st\<lparr>chat := (chat st)\<lparr>messages := messages (chat st) @ [e]\<rparr>\<rparr>"

text \<open>
  \<^verbatim>\<open>if (currentMessage) { this.chatData.messages.push(currentMessage); currentMessage = null; }\<close>
\<close>

definition close_message :: "parse_state \<Rightarrow> parse_state" where
  "close_message st =
     (case currentMessage st of
        None \<Rightarrow> st
      | Some m \<Rightarrow> (push (MessageEvent m) st)\<lparr>currentMessage := None\<rparr>)"

text \<open>One turn of the loop, on the line \<^verbatim>\<open>lines[i]\<close>.\<close>

definition step :: "parse_state \<Rightarrow> jsstring \<Rightarrow> parse_state" where
  "step st raw_line =
     (let line = trim raw_line in
      if line = [] then
        (case currentMessage st of
           None \<Rightarrow> st
         | Some m \<Rightarrow>
             st\<lparr>currentMessage := Some (m\<lparr>content := content m @ [0x0A], raw := raw m @ [0x0A]\<rparr>)\<rparr>)
      else if js_includes line title_marker then
        (let st' = close_message st
         in st'\<lparr>chat := (chat st')\<lparr>title := replace line title_suffix []\<rparr>\<rparr>)
      else if startsWith line saveDate_marker then
        (let st' = close_message st
         in st'\<lparr>chat := (chat st')\<lparr>saveDate := replace line saveDate_prefix []\<rparr>\<rparr>)
      else if startsWith line dashes \<and> js_includes line [nyeon] \<and> js_includes line [wol] then
        (let st' = close_message st; d = extractDate line
         in (push (DateEvent d line) st')\<lparr>currentDate := d\<rparr>)
      else
        (case messagePattern line of
           Some (s, t, c) \<Rightarrow>
             (case currentMessage st of None \<Rightarrow> st | Some m \<Rightarrow> push (MessageEvent m) st)
               \<lparr>currentMessage := Some
                  \<lparr>sender = trim s, time = trim t, content = trim c, date = currentDate st,
                   messageType = detectMessageType (trim c), raw = line\<rparr>\<rparr>
         | None \<Rightarrow>
             (case currentMessage st of
                None \<Rightarrow> st
              | Some m \<Rightarrow>
                  st\<lparr>currentMessage := Some
                     (m\<lparr>content := content m @ 0x0A # line,
                       raw := raw m @ 0x0A # line,
                       messageType := detectMessageType (content m @ 0x0A # line)\<rparr>)\<rparr>)))"

fun parse_loop :: "parse_state \<Rightarrow> jsstring list \<Rightarrow> parse_state" where
  "parse_loop st [] = st"
| "parse_loop st (l # ls) = parse_loop (step st l) ls"

text \<open>
  \<^verbatim>\<open>parse(content)\<close> on a parser whose field \<^verbatim>\<open>chatData\<close> is \<open>cd\<close>. The method changes the
  field in place and returns it: the result is both the value returned and the field
  that the next call on the same parser starts from.
\<close>

definition parse :: "chatData \<Rightarrow> jsstring \<Rightarrow> chatData" where
  "parse cd text =
     chat (close_message
       (parse_loop \<lparr>chat = cd, currentDate = [], currentMessage = None\<rparr> (split_nl text)))"

section \<open>Statistics\<close>

text \<open>
  \<^verbatim>\<open>Math.round((a / b) * 100)\<close> is computed on binary64 numbers: the quotient is rounded to
  53 significant bits, the product by 100 is rounded again, and \<^verbatim>\<open>Math.round\<close> takes the
  nearest integer, a half going up. A positive binary64 number is a pair \<open>(m, e)\<close> that
  stands for \<open>m * 2 ^ e\<close>, with \<open>2 ^ 52 \<le> m \<le> 2 ^ 53\<close>. The lengths of arrays are below
  \<open>2 ^ 32\<close>, so they are binary64 numbers themselves and neither overflow nor subnormal
  numbers occur.
\<close>

fun bit_length :: "nat \<Rightarrow> nat" where
  "bit_length n = (if n = 0 then 0 else Suc (bit_length (n div 2)))"

declare bit_length.simps [simp del]

definition round_even :: "nat \<Rightarrow> nat \<Rightarrow> nat" where \<comment> \<open>\<open>p / q\<close> to the nearest integer, a tie to the even one\<close>
  "round_even p q =
     (let k = p div q; r = p mod q
      in if 2 * r < q \<or> (2 * r = q \<and> even k) then k else k + 1)"

definition to_double :: "nat \<Rightarrow> nat \<Rightarrow> nat \<times> int" where \<comment> \<open>the binary64 number nearest to \<open>p / q\<close>, for \<open>0 < p\<close> and \<open>0 < q\<close>\<close>
  "to_double p q =
     (let s = 54 + bit_length q;
          sh = bit_length ((p * 2 ^ s) div q) - 53
      in (round_even (p * 2 ^ s) (q * 2 ^ sh), int sh - int s))"

definition times_100 :: "nat \<times> int \<Rightarrow> nat \<times> int" where
  "times_100 x = (case x of (m, e) \<Rightarrow> (case to_double (m * 100) 1 of (m', e') \<Rightarrow> (m', e' + e)))"

definition math_round :: "nat \<times> int \<Rightarrow> nat" where
  "math_round x =
     (case x of (m, e) \<Rightarrow>
        if 0 \<le> e then m * 2 ^ nat e
        else (2 * m + 2 ^ nat (- e)) div 2 ^ (nat (- e) + 1))"

datatype js_number = Finite nat | NaN | PosInfinity

definition js_percentage :: "nat \<Rightarrow> nat \<Rightarrow> js_number" where
  "js_percentage a b =
     (if b = 0 then (if a = 0 then NaN else PosInfinity)
      else if a = 0 then Finite 0
      else Finite (math_round (times_100 (to_double a b))))"

record sender_stat =
  count :: nat
  percentage :: js_number

text \<open>
  The object \<^verbatim>\<open>stats\<close> of \<^verbatim>\<open>getSenderStats\<close> starts as \<^verbatim>\<open>{}\<close>, a plain object whose
  prototype is \<^verbatim>\<open>Object.prototype\<close>. The assignment \<^verbatim>\<open>stats[key] = entry\<close> stores an own
  property for every key but \<^verbatim>\<open>"__proto__"\<close>: that name is an accessor of
  \<^verbatim>\<open>Object.prototype\<close>, its setter makes the entry the prototype of the object and no own
  property is stored. A property of the same name further up the prototype chain
  (\<^verbatim>\<open>toString\<close>, or \<^verbatim>\<open>count\<close> once an entry is the prototype) is a writable data
  property and does not stop the own property from being stored. The model keeps the own
  properties and the entry that has replaced the prototype, if there is one.
\<close>

record stats_object =
  own_entries :: "jsstring \<rightharpoonup> sender_stat"
  prototype_entry :: "sender_stat option"

definition proto_key :: jsstring where
  "proto_key = ascii ''__proto__''"

definition empty_object :: stats_object where
  "empty_object = \<lparr>own_entries = Map.empty, prototype_entry = None\<rparr>"

definition set_property :: "stats_object \<Rightarrow> jsstring \<Rightarrow> sender_stat \<Rightarrow> stats_object" where
  "set_property obj key entry =
     (if key = proto_key then obj\<lparr>prototype_entry := Some entry\<rparr>
      else obj\<lparr>own_entries := (own_entries obj)(key \<mapsto> entry)\<rparr>)"

text \<open>
  The entry that reading \<^verbatim>\<open>stats[key]\<close> gives: the own property of that name, and for
  \<^verbatim>\<open>"__proto__"\<close> the prototype, which the getter returns, when an entry has replaced it.
  Any other read gives no entry (an inherited number or function, or \<^verbatim>\<open>undefined\<close>).
\<close>

definition get_entry :: "stats_object \<Rightarrow> jsstring \<Rightarrow> sender_stat option" where
  "get_entry obj key = (if key = proto_key then prototype_entry obj else own_entries obj key)"

record stats =
  totalMessages :: nat
  totalDays :: nat
  participants :: nat
  senderStats :: stats_object

fun message_events :: "event list \<Rightarrow> message list" where \<comment> \<open>\<^verbatim>\<open>filter(msg => msg.type === 'message')\<close>\<close>
  "message_events [] = []"
| "message_events (MessageEvent m # es) = m # message_events es"
| "message_events (DateEvent d r # es) = message_events es"

fun date_events :: "event list \<Rightarrow> event list" where \<comment> \<open>\<^verbatim>\<open>filter(msg => msg.type === 'date')\<close>\<close>
  "date_events [] = []"
| "date_events (MessageEvent m # es) = date_events es"
| "date_events (DateEvent d r # es) = DateEvent d r # date_events es"

text \<open>\<^verbatim>\<open>[...new Set(xs)]\<close>: the distinct elements, in the order of their first occurrence.\<close>

definition uniq :: "'a list \<Rightarrow> 'a list" where
  "uniq xs = rev (remdups (rev xs))"

definition getSenderStats :: "message list \<Rightarrow> jsstring list \<Rightarrow> stats_object" where
  "getSenderStats msgs senders =
     foldl (\<lambda>stats s.
        let senderMessages = filter (\<lambda>msg. sender msg = s) msgs
        in set_property stats s
             \<lparr>count = length senderMessages,
              percentage = js_percentage (length senderMessages) (length msgs)\<rparr>)
       empty_object senders"

definition getStats :: "chatData \<Rightarrow> stats" where
  "getStats cd =
     (let msgs = message_events (messages cd);
          senders = uniq (map sender msgs)
      in \<lparr>totalMessages = length msgs,
          totalDays = length (date_events (messages cd)),
          participants = length senders,
          senderStats = getSenderStats msgs senders\<rparr>)"

section \<open>Notions used to state the properties\<close>



text \<open>
  The \<^verbatim>\<open>date\<close> of the last date marker of a sequence of events, the empty string when
  there is none.
\<close>

definition nearest_marker :: "event list \<Rightarrow> jsstring" where
  "nearest_marker es =
     (case date_events es of [] \<Rightarrow> [] | d # ds \<Rightarrow> marker_date (last (d # ds)))"

text \<open>Every message of the sequence carries the date of the nearest marker before it.\<close>

definition dated :: "event list \<Rightarrow> bool" where
  "dated es \<longleftrightarrow>
     (\<forall>i<length es. \<forall>m. es ! i = MessageEvent m \<longrightarrow> date m = nearest_marker (take i es))"

definition date_invariant :: "parse_state \<Rightarrow> bool" where
  "date_invariant st \<longleftrightarrow>
     dated (messages (chat st)) \<and>
     currentDate st = nearest_marker (messages (chat st)) \<and>
     (case currentMessage st of None \<Rightarrow> True | Some m \<Rightarrow> date m = currentDate st)"

text \<open>The events written so far, the open message counted as one.\<close>

definition pending :: "parse_state \<Rightarrow> nat" where
  "pending st =
     length (messages (chat st)) + (case currentMessage st of None \<Rightarrow> 0 | Some m \<Rightarrow> 1)"

text \<open>A line that no branch of the loop recognises as a header, a separator or a message.\<close>

definition unrecognised :: "jsstring \<Rightarrow> bool" where
  "unrecognised raw_line \<longleftrightarrow>
     \<not> js_includes (trim raw_line) title_marker \<and>
     \<not> startsWith (trim raw_line) saveDate_marker \<and>
     \<not> (startsWith (trim raw_line) dashes \<and> js_includes (trim raw_line) [nyeon]
        \<and> js_includes (trim raw_line) [wol]) \<and>
     messagePattern (trim raw_line) = None"

text \<open>
  The date of the separator line that the export format writes between two rows of
  fifteen hyphens: "2025(year) 5(month) 20(day) hwayoil" (Tuesday).
\<close>

definition sample_date :: jsstring where
  "sample_date = ascii ''2025'' @ [nyeon] @ ascii '' 5'' @ [wol] @ ascii '' 20'' @ [il]
     @ [0x20, 0xD654, 0xC694, 0xC77C]"

definition sample_separator :: jsstring where
  "sample_separator = dashes @ [0x20] @ sample_date @ [0x20] @ dashes"

text \<open>Chat data that holds the given messages and nothing else.\<close>

definition message_from :: "jsstring \<Rightarrow> message" where
  "message_from s = \<lparr>sender = s, time = ascii ''1:00'', content = ascii ''hi'', date = [],
     messageType = TText, raw = ascii ''[] [1:00] hi''\<rparr>"

definition chat_of :: "message list \<Rightarrow> chatData" where
  "chat_of ms = \<lparr>title = [], saveDate = [], messages = map MessageEvent ms\<rparr>"

text \<open>
  The entry of a sender: the number of the sender's messages, and the percentage that the
  source's expression gives for that number and the number of all messages.
\<close>

definition sender_entry :: "message list \<Rightarrow> jsstring \<Rightarrow> sender_stat" where
  "sender_entry msgs s =
     \<lparr>count = length (filter (\<lambda>msg. sender msg = s) msgs),
      percentage = js_percentage (length (filter (\<lambda>msg. sender msg = s) msgs)) (length msgs)\<rparr>"

text \<open>
  The rules of the classifier as the documentation lists them, after the rule for the
  empty content: media, emoticon, link, file, voice and system.
\<close>

definition media_rule :: "jsstring \<Rightarrow> bool" where
  "media_rule txt \<longleftrightarrow> txt = photo \<or> txt = video \<or> txt = photos"

definition emoticon_rule :: "jsstring \<Rightarrow> bool" where
  "emoticon_rule txt \<longleftrightarrow> txt = emoticon \<or> startsWith txt emoticon_colon"

definition link_rule :: "jsstring \<Rightarrow> bool" where
  "link_rule txt \<longleftrightarrow> js_includes txt http \<or> js_includes txt https"

definition file_rule :: "jsstring \<Rightarrow> bool" where
  "file_rule txt \<longleftrightarrow> js_includes txt file_marker \<or> file_extension_match txt"

definition voice_rule :: "jsstring \<Rightarrow> bool" where
  "voice_rule txt \<longleftrightarrow> js_includes txt voice"

definition system_rule :: "jsstring \<Rightarrow> bool" where
  "system_rule txt \<longleftrightarrow>
     js_includes txt joined \<or> js_includes txt left_room \<or> js_includes txt room_opened"

text \<open>The nearest integer to \<open>p / q\<close>, a half going up, in exact arithmetic.\<close>

definition round_half_up :: "nat \<Rightarrow> nat \<Rightarrow> nat" where
  "round_half_up p q = (2 * p + q) div (2 * q)"

section \<open>Facts about the classifier\<close>

lemma js_includes_Nil [simp]: "js_includes s [] = True"
  by (cases s) simp_all

lemma js_includes_iff: "js_includes s pat \<longleftrightarrow> (\<exists>us vs. s = us @ pat @ vs)"
proof (induction s)
  case Nil
  then show ?case by auto
next
  case (Cons c cs)
  show ?case
  proof
    assume "js_includes (c # cs) pat"
    then consider "prefix pat (c # cs)" | "js_includes cs pat" by auto
    then show "\<exists>us vs. c # cs = us @ pat @ vs"
    proof cases
      case 1
      then obtain vs where "c # cs = pat @ vs" by (auto simp: prefix_def)
      then have "c # cs = [] @ pat @ vs" by simp
      then show ?thesis by blast
    next
      case 2
      with Cons.IH obtain us vs where "cs = us @ pat @ vs" by blast
      then have "c # cs = (c # us) @ pat @ vs" by simp
      then show ?thesis by blast
    qed
  next
    assume "\<exists>us vs. c # cs = us @ pat @ vs"
    then obtain us vs where eq: "c # cs = us @ pat @ vs" by blast
    show "js_includes (c # cs) pat"
    proof (cases us)
      case Nil
      with eq have "prefix pat (c # cs)" by (simp add: prefix_def)
      then show ?thesis by simp
    next
      case (Cons u us')
      with eq have "cs = us' @ pat @ vs" by simp
      with Cons.IH have "js_includes cs pat" by blast
      then show ?thesis by simp
    qed
  qed
qed

lemma media_no_url:
  "\<not> js_includes photo http" "\<not> js_includes video http" "\<not> js_includes photos http"
  "\<not> js_includes photo https" "\<not> js_includes video https" "\<not> js_includes photos https"
  "\<not> js_includes emoticon http" "\<not> js_includes emoticon https"
  by (simp_all add: photo_def video_def photos_def emoticon_def http_def https_def ascii_def)

lemma js_includes_self [simp]: "js_includes s s"
  by (cases s) simp_all

text \<open>
  C5 (as amended). The checks run top to bottom in the documented order, and the first
  that holds decides: a kind is returned exactly when its rule holds and no rule before
  it does, and \<open>text\<close> exactly when no rule holds. So a content with an \<^verbatim>\<open>http://\<close> or
  \<^verbatim>\<open>https://\<close> substring is never classified as a file, whatever its ending: it is a link,
  unless it starts with the emoticon prefix, which is tested before the link check and
  then wins.
\<close>

theorem detectMessageType_precedence:
  "(detectMessageType txt = TEmpty \<longleftrightarrow> txt = [])
   \<and> (detectMessageType txt = TMedia \<longleftrightarrow> txt \<noteq> [] \<and> media_rule txt)
   \<and> (detectMessageType txt = TEmoticon \<longleftrightarrow>
        txt \<noteq> [] \<and> \<not> media_rule txt \<and> emoticon_rule txt)
   \<and> (detectMessageType txt = TLink \<longleftrightarrow>
        txt \<noteq> [] \<and> \<not> media_rule txt \<and> \<not> emoticon_rule txt \<and> link_rule txt)
   \<and> (detectMessageType txt = TFile \<longleftrightarrow>
        txt \<noteq> [] \<and> \<not> media_rule txt \<and> \<not> emoticon_rule txt \<and> \<not> link_rule txt
        \<and> file_rule txt)
   \<and> (detectMessageType txt = TVoice \<longleftrightarrow>
        txt \<noteq> [] \<and> \<not> media_rule txt \<and> \<not> emoticon_rule txt \<and> \<not> link_rule txt
        \<and> \<not> file_rule txt \<and> voice_rule txt)
   \<and> (detectMessageType txt = TSystem \<longleftrightarrow>
        txt \<noteq> [] \<and> \<not> media_rule txt \<and> \<not> emoticon_rule txt \<and> \<not> link_rule txt
        \<and> \<not> file_rule txt \<and> \<not> voice_rule txt \<and> system_rule txt)
   \<and> (detectMessageType txt = TText \<longleftrightarrow>
        txt \<noteq> [] \<and> \<not> media_rule txt \<and> \<not> emoticon_rule txt \<and> \<not> link_rule txt
        \<and> \<not> file_rule txt \<and> \<not> voice_rule txt \<and> \<not> system_rule txt)
   \<and> (js_includes txt http \<or> js_includes txt https \<longrightarrow>
        detectMessageType txt = (if startsWith txt emoticon_colon then TEmoticon else TLink)
        \<and> detectMessageType txt \<noteq> TFile)"
proof -
  have order:
    "detectMessageType txt =
       (if txt = [] then TEmpty
        else if media_rule txt then TMedia
        else if emoticon_rule txt then TEmoticon
        else if link_rule txt then TLink
        else if file_rule txt then TFile
        else if voice_rule txt then TVoice
        else if system_rule txt then TSystem
        else TText)"
    by (auto simp: detectMessageType_def media_rule_def emoticon_rule_def link_rule_def
        file_rule_def voice_rule_def system_rule_def)
  have url: "detectMessageType txt
               = (if startsWith txt emoticon_colon then TEmoticon else TLink)
             \<and> detectMessageType txt \<noteq> TFile"
    if u: "js_includes txt http \<or> js_includes txt https"
  proof -
    from u have ne: "txt \<noteq> []"
      by (auto simp: http_def https_def ascii_def)
    from u media_no_url have nm: "txt \<noteq> photo" "txt \<noteq> video" "txt \<noteq> photos"
        "txt \<noteq> emoticon"
      by auto
    show ?thesis
      using u ne nm by (simp add: detectMessageType_def)
  qed
  from url show ?thesis
    unfolding order by simp
qed

theorem detectMessageType_precedence_witness:
  "js_includes (ascii ''https://a.io/b.PDF'') https
   \<and> file_rule (ascii ''https://a.io/b.PDF'')
   \<and> detectMessageType (ascii ''https://a.io/b.PDF'') = TLink"
proof -
  have h: "js_includes (ascii ''https://a.io/b.PDF'') https"
    by (simp add: https_def ascii_def)
  have e: "file_rule (ascii ''https://a.io/b.PDF'')"
    by (simp add: file_rule_def file_extension_match_def extensions_def ends_with_def
        ascii_lower_def ascii_def)
  have n: "\<not> startsWith (ascii ''https://a.io/b.PDF'') emoticon_colon"
    by (simp add: startsWith_def emoticon_colon_def emoticon_def ascii_def)
  from detectMessageType_precedence [of "ascii ''https://a.io/b.PDF''"] h n e show ?thesis
    by simp
qed

text \<open>
  The claim as first stated fails: this content contains \<^verbatim>\<open>http://\<close> and ends with
  \<^verbatim>\<open>.pdf\<close>, but it starts with the emoticon prefix and is classified as an emoticon.
\<close>

theorem detectMessageType_url_counterexample:
  "js_includes (emoticon_colon @ ascii ''http://a.pdf'') http
   \<and> file_extension_match (emoticon_colon @ ascii ''http://a.pdf'')
   \<and> detectMessageType (emoticon_colon @ ascii ''http://a.pdf'') = TEmoticon
   \<and> detectMessageType (emoticon_colon @ ascii ''http://a.pdf'') \<noteq> TLink"
  by (simp add: detectMessageType_def startsWith_def emoticon_colon_def emoticon_def
      photo_def video_def photos_def http_def ascii_def file_extension_match_def
      extensions_def ends_with_def ascii_lower_def)

section \<open>One turn of the loop\<close>

lemmas string_defs = ascii_def trim_def is_white_space_def is_line_terminator_def is_digit_def
  startsWith_def title_marker_def title_suffix_def saveDate_marker_def saveDate_prefix_def
  dashes_def nyeon_def wol_def il_def photo_def video_def photos_def emoticon_def
  emoticon_colon_def http_def https_def file_marker_def voice_def joined_def left_room_def
  room_opened_def ascii_lower_def ends_with_def extensions_def file_extension_match_def
  detectMessageType_def skip_spaces_def bracketed_def messagePattern_def dateMatch_at_def
  extractDate_def

lemmas parse_defs = parse_def step_def close_message_def push_def new_KakaoTalkParser_def
  Let_def

text \<open>
  C2 (as amended). While a message is open, a line that is not blank once trimmed and that
  is no header, no date separator and no message start is appended to the content of the
  open message after a newline character, in its trimmed form; the kind of the message
  becomes the classifier's value on the whole new content.
\<close>

theorem step_continuation:
  assumes "currentMessage st = Some m"
    and "trim raw_line \<noteq> []"
    and "unrecognised raw_line"
  shows "step st raw_line =
           st\<lparr>currentMessage := Some
                (m\<lparr>content := content m @ [0x0A] @ trim raw_line,
                   raw := raw m @ [0x0A] @ trim raw_line,
                   messageType := detectMessageType (content m @ [0x0A] @ trim raw_line)\<rparr>)\<rparr>"
  using assms by (auto simp: step_def unrecognised_def Let_def)

theorem step_continuation_witness:
  "step \<lparr>chat = new_KakaoTalkParser, currentDate = [],
         currentMessage = Some \<lparr>sender = ascii ''A'', time = ascii ''1:00'',
           content = ascii ''see'', date = [], messageType = TText, raw = ascii ''[A] [1:00] see''\<rparr>\<rparr>
     (ascii ''  http://a.io  '')
   = \<lparr>chat = new_KakaoTalkParser, currentDate = [],
      currentMessage = Some \<lparr>sender = ascii ''A'', time = ascii ''1:00'',
        content = ascii ''see'' @ [0x0A] @ ascii ''http://a.io'', date = [],
        messageType = TLink, raw = ascii ''[A] [1:00] see'' @ [0x0A] @ ascii ''http://a.io''\<rparr>\<rparr>"
proof -
  let ?m = "\<lparr>sender = ascii ''A'', time = ascii ''1:00'', content = ascii ''see'', date = [],
    messageType = TText, raw = ascii ''[A] [1:00] see''\<rparr>"
  let ?st = "\<lparr>chat = new_KakaoTalkParser, currentDate = [], currentMessage = Some ?m\<rparr>"
  have t: "trim (ascii ''  http://a.io  '') = ascii ''http://a.io''"
    by (simp add: ascii_def trim_def is_white_space_def)
  have h1: "currentMessage ?st = Some ?m" by simp
  have h2: "trim (ascii ''  http://a.io  '') \<noteq> []"
    by (simp add: t) (simp add: ascii_def)
  have h3: "unrecognised (ascii ''  http://a.io  '')"
    unfolding unrecognised_def t by (simp add: string_defs)
  have k: "detectMessageType (ascii ''see'' @ 0x0A # ascii ''http://a.io'') = TLink"
    by (simp add: string_defs)
  from step_continuation [OF h1 h2 h3] show ?thesis
    by (simp add: t k)
qed

text \<open>
  The claim as first stated fails: the second physical line has two leading spaces, and
  the content of the message holds it without them.
\<close>

theorem continuation_raw_line_counterexample:
  "map content (message_events (messages (parse new_KakaoTalkParser
       (ascii ''[A] [1:00] hello'' @ [0x0A] @ ascii ''  world''))))
     = [ascii ''hello'' @ [0x0A] @ ascii ''world'']
   \<and> ascii ''hello'' @ [0x0A] @ ascii ''world'' \<noteq> ascii ''hello'' @ [0x0A] @ ascii ''  world''"
  by (simp add: string_defs parse_defs)

text \<open>
  C4 (as amended). A line that, once trimmed, starts with fifteen hyphens and contains
  the year and the month character, and that is neither a title nor a save-date header,
  closes the open message, appends a date marker and sets the current date. A shorter
  run of hyphens is not a separator.
\<close>

theorem step_date_separator:
  assumes "startsWith (trim raw_line) dashes"
    and "js_includes (trim raw_line) [nyeon]"
    and "js_includes (trim raw_line) [wol]"
    and "\<not> js_includes (trim raw_line) title_marker"
    and "\<not> startsWith (trim raw_line) saveDate_marker"
  shows "messages (chat (step st raw_line))
           = messages (chat st)
             @ (case currentMessage st of None \<Rightarrow> [] | Some m \<Rightarrow> [MessageEvent m])
             @ [DateEvent (extractDate (trim raw_line)) (trim raw_line)]
         \<and> currentMessage (step st raw_line) = None
         \<and> currentDate (step st raw_line) = extractDate (trim raw_line)"
proof -
  from assms(1) have "trim raw_line \<noteq> []"
    by (auto simp: startsWith_def dashes_def ascii_def)
  with assms show ?thesis
    by (simp add: step_def close_message_def push_def Let_def split: option.splits)
qed

theorem step_date_separator_witness:
  "messages (chat (step \<lparr>chat = new_KakaoTalkParser, currentDate = [],
       currentMessage = Some \<lparr>sender = ascii ''A'', time = ascii ''1:00'',
         content = ascii ''hi'', date = [], messageType = TText, raw = ascii ''[A] [1:00] hi''\<rparr>\<rparr>
     (0x20 # sample_separator @ [0x0D])))
   = [MessageEvent \<lparr>sender = ascii ''A'', time = ascii ''1:00'',
         content = ascii ''hi'', date = [], messageType = TText, raw = ascii ''[A] [1:00] hi''\<rparr>,
      DateEvent sample_date sample_separator]"
proof -
  let ?st = "\<lparr>chat = new_KakaoTalkParser, currentDate = [],
       currentMessage = Some \<lparr>sender = ascii ''A'', time = ascii ''1:00'',
         content = ascii ''hi'', date = [], messageType = TText, raw = ascii ''[A] [1:00] hi''\<rparr>\<rparr>"
  have t: "trim (0x20 # sample_separator @ [0x0D]) = sample_separator"
    by (simp add: sample_separator_def sample_date_def string_defs)
  have h1: "startsWith (trim (0x20 # sample_separator @ [0x0D])) dashes"
    unfolding t by (simp add: sample_separator_def startsWith_def)
  have h2: "js_includes (trim (0x20 # sample_separator @ [0x0D])) [nyeon]"
    unfolding t by (simp add: sample_separator_def sample_date_def string_defs)
  have h3: "js_includes (trim (0x20 # sample_separator @ [0x0D])) [wol]"
    unfolding t by (simp add: sample_separator_def sample_date_def string_defs)
  have h4: "\<not> js_includes (trim (0x20 # sample_separator @ [0x0D])) title_marker"
    unfolding t by (simp add: sample_separator_def sample_date_def string_defs)
  have h5: "\<not> startsWith (trim (0x20 # sample_separator @ [0x0D])) saveDate_marker"
    unfolding t by (simp add: sample_separator_def sample_date_def string_defs)
  have e: "extractDate sample_separator = sample_date"
    by (simp add: sample_separator_def sample_date_def string_defs)
  from step_date_separator [OF h1 h2 h3 h4 h5, of ?st] show ?thesis
    by (simp add: t e new_KakaoTalkParser_def)
qed

text \<open>
  The claim as first stated fails: with fourteen hyphens on each side the line is not a
  separator. No date marker is appended; without an open message the line is dropped.
\<close>

theorem short_dash_run_counterexample:
  "js_includes (ascii ''--------------'' @ [0x20] @ sample_date @ [0x20] @ ascii ''--------------'') [nyeon]
   \<and> js_includes (ascii ''--------------'' @ [0x20] @ sample_date @ [0x20] @ ascii ''--------------'') [wol]
   \<and> messages (parse new_KakaoTalkParser
        (ascii ''--------------'' @ [0x20] @ sample_date @ [0x20] @ ascii ''--------------'')) = []"
  by (simp add: sample_date_def string_defs parse_defs)

section \<open>The headers\<close>



lemma close_message_header [simp]:
  "title (chat (close_message st)) = title (chat st)"
  "saveDate (chat (close_message st)) = saveDate (chat st)"
  by (simp_all add: close_message_def push_def split: option.splits)








section \<open>The date of a message\<close>

lemma date_events_append [simp]: "date_events (es @ fs) = date_events es @ date_events fs"
  by (induction es rule: date_events.induct) simp_all

lemma nearest_marker_Nil [simp]: "nearest_marker [] = []"
  by (simp add: nearest_marker_def)

lemma nearest_marker_snoc_date [simp]: "nearest_marker (es @ [DateEvent d r]) = d"
  by (cases "date_events es") (simp_all add: nearest_marker_def)

lemma nearest_marker_snoc_message [simp]:
  "nearest_marker (es @ [MessageEvent m]) = nearest_marker es"
  by (simp add: nearest_marker_def)

lemma dated_Nil [simp]: "dated []"
  by (simp add: dated_def)

lemma dated_snoc_date: "dated es \<Longrightarrow> dated (es @ [DateEvent d r])"
  by (auto simp: dated_def nth_append less_Suc_eq)

lemma dated_snoc_message:
  "dated es \<Longrightarrow> date m = nearest_marker es \<Longrightarrow> dated (es @ [MessageEvent m])"
  by (auto simp: dated_def nth_append less_Suc_eq)

lemma close_message_locals [simp]:
  "currentMessage (close_message st) = None"
  "currentDate (close_message st) = currentDate st"
  by (simp_all add: close_message_def push_def split: option.splits)

lemma date_invariant_close: "date_invariant st \<Longrightarrow> date_invariant (close_message st)"
  by (auto simp: date_invariant_def close_message_def push_def dated_snoc_message
      split: option.splits)

lemma date_invariant_step:
  assumes "date_invariant st"
  shows "date_invariant (step st l)"
proof -
  let ?line = "trim l"
  consider (blank) "?line = []"
    | (title) "?line \<noteq> []" "js_includes ?line title_marker"
    | (saved) "?line \<noteq> []" "\<not> js_includes ?line title_marker"
        "startsWith ?line saveDate_marker"
    | (separator) "?line \<noteq> []" "\<not> js_includes ?line title_marker"
        "\<not> startsWith ?line saveDate_marker"
        "startsWith ?line dashes \<and> js_includes ?line [nyeon] \<and> js_includes ?line [wol]"
    | (other) "?line \<noteq> []" "\<not> js_includes ?line title_marker"
        "\<not> startsWith ?line saveDate_marker"
        "\<not> (startsWith ?line dashes \<and> js_includes ?line [nyeon] \<and> js_includes ?line [wol])"
    by blast
  then show ?thesis
  proof cases
    case blank
    with assms show ?thesis
      by (auto simp: step_def date_invariant_def Let_def split: option.splits)
  next
    case title
    with date_invariant_close [OF assms] show ?thesis
      by (simp add: step_def date_invariant_def Let_def)
  next
    case saved
    with date_invariant_close [OF assms] show ?thesis
      by (simp add: step_def date_invariant_def Let_def)
  next
    case separator
    from date_invariant_close [OF assms]
    have "dated (messages (chat (close_message st)))"
      by (simp add: date_invariant_def)
    with separator show ?thesis
      by (simp add: step_def date_invariant_def Let_def push_def dated_snoc_date)
  next
    case other
    show ?thesis
    proof (cases "messagePattern ?line")
      case None
      with other assms show ?thesis
        by (auto simp: step_def date_invariant_def Let_def split: option.splits)
    next
      case (Some g)
      obtain s t c where g: "g = (s, t, c)" by (cases g)
      from other Some g assms show ?thesis
        by (auto simp: step_def date_invariant_def Let_def push_def dated_snoc_message
            split: option.splits)
    qed
  qed
qed

lemma date_invariant_loop:
  "date_invariant st \<Longrightarrow> date_invariant (parse_loop st ls)"
  by (induction ls arbitrary: st) (simp_all add: date_invariant_step)

lemma dated_parse: "dated (messages (parse new_KakaoTalkParser text))"
proof -
  have "date_invariant \<lparr>chat = new_KakaoTalkParser, currentDate = [], currentMessage = None\<rparr>"
    by (simp add: date_invariant_def new_KakaoTalkParser_def)
  then have "date_invariant (close_message (parse_loop
      \<lparr>chat = new_KakaoTalkParser, currentDate = [], currentMessage = None\<rparr> (split_nl text)))"
    by (intro date_invariant_close date_invariant_loop)
  then show ?thesis
    by (simp add: parse_def date_invariant_def)
qed

text \<open>
  On a new parser the dates are in order: in the events that \<^verbatim>\<open>parse\<close> returns there, the
  date of every message is the date text of the nearest date marker before it, and the
  empty string when no marker comes before it.
\<close>

lemma new_parser_message_date:
  assumes "i < length (messages (parse new_KakaoTalkParser text))"
    and "messages (parse new_KakaoTalkParser text) ! i = MessageEvent m"
  shows "date m = nearest_marker (take i (messages (parse new_KakaoTalkParser text)))"
  using dated_parse [of "text"] assms by (simp add: dated_def)

section \<open>Lines that match nothing\<close>

lemma pending_close: "length (messages (chat (close_message st))) = pending st"
  by (simp add: close_message_def push_def pending_def split: option.splits)

lemma pending_closed: "pending (close_message st) = pending st"
  by (simp add: close_message_def push_def pending_def split: option.splits)

lemma pending_step: "pending (step st l) \<le> Suc (pending st)"
proof -
  have a: "pending (close_message st\<lparr>chat := chat (close_message st)\<lparr>title := x\<rparr>\<rparr>)
             = pending st" for x
    using pending_closed [of st] by (simp add: pending_def)
  have b: "pending (close_message st\<lparr>chat := chat (close_message st)\<lparr>saveDate := x\<rparr>\<rparr>)
             = pending st" for x
    using pending_closed [of st] by (simp add: pending_def)
  have c: "pending (push e (close_message st)\<lparr>currentDate := x\<rparr>) = Suc (pending st)" for e x
    using pending_closed [of st] by (simp add: pending_def push_def)
  show ?thesis
    unfolding step_def Let_def
    by (auto simp: a b c) (auto simp: pending_def push_def split: option.splits)
qed

lemma pending_loop: "pending (parse_loop st ls) \<le> pending st + length ls"
proof (induction ls arbitrary: st)
  case Nil
  then show ?case by simp
next
  case (Cons l ls)
  have "pending (parse_loop (step st l) ls) \<le> pending (step st l) + length ls"
    by (rule Cons.IH)
  also have "\<dots> \<le> Suc (pending st) + length ls"
    using pending_step [of st l] by simp
  finally show ?case by simp
qed

lemma step_unmatched:
  assumes "trim l = [] \<or> unrecognised l"
  shows "chat (step st l) = chat st \<and> currentDate (step st l) = currentDate st
         \<and> (currentMessage (step st l) = None \<longleftrightarrow> currentMessage st = None)"
  using assms by (auto simp: step_def unrecognised_def Let_def split: option.splits)

lemma step_dropped:
  assumes "trim l = [] \<or> unrecognised l" and "currentMessage st = None"
  shows "step st l = st"
  using assms by (auto simp: step_def unrecognised_def Let_def)

lemma loop_dropped:
  assumes "list_all (\<lambda>l. trim l = [] \<or> unrecognised l) ls" and "currentMessage st = None"
  shows "parse_loop st ls = st"
  using assms by (induction ls) (simp_all add: step_dropped)

text \<open>
  C7. \<^verbatim>\<open>parse\<close> has a result on every string: the loop is a recursion on the list of the
  lines, and every result of a regular expression is inspected before its groups are
  used, so no turn of the loop can fail. The empty string gives the empty chat data; the
  result never has more events than the text has lines; a text whose lines are all blank
  or unrecognised gives the empty chat data; and such a line changes neither the chat
  data nor the current date: it goes into the open message if there is one and is
  dropped otherwise.
\<close>

theorem parse_total:
  "parse new_KakaoTalkParser [] = \<lparr>title = [], saveDate = [], messages = []\<rparr>
   \<and> length (messages (parse new_KakaoTalkParser text)) \<le> length (split_nl text)
   \<and> (list_all (\<lambda>l. trim l = [] \<or> unrecognised l) (split_nl text)
        \<longrightarrow> parse new_KakaoTalkParser text = \<lparr>title = [], saveDate = [], messages = []\<rparr>)
   \<and> (trim l = [] \<or> unrecognised l
        \<longrightarrow> chat (step st l) = chat st \<and> currentDate (step st l) = currentDate st
            \<and> (currentMessage (step st l) = None \<longleftrightarrow> currentMessage st = None))"
proof -
  let ?init = "\<lparr>chat = new_KakaoTalkParser, currentDate = [], currentMessage = None\<rparr>"
  have 1: "parse new_KakaoTalkParser [] = \<lparr>title = [], saveDate = [], messages = []\<rparr>"
    by (simp add: parse_defs trim_def)
  have "length (messages (parse new_KakaoTalkParser text))
          = pending (parse_loop ?init (split_nl text))"
    by (simp add: parse_def pending_close)
  also have "\<dots> \<le> pending ?init + length (split_nl text)"
    by (rule pending_loop)
  also have "pending ?init = 0"
    by (simp add: pending_def new_KakaoTalkParser_def)
  finally have 2: "length (messages (parse new_KakaoTalkParser text)) \<le> length (split_nl text)"
    by simp
  have 3: "parse new_KakaoTalkParser text = \<lparr>title = [], saveDate = [], messages = []\<rparr>"
    if "list_all (\<lambda>l. trim l = [] \<or> unrecognised l) (split_nl text)"
    using loop_dropped [OF that, of ?init]
    by (simp add: parse_def close_message_def new_KakaoTalkParser_def)
  from 1 2 3 step_unmatched [of l st] show ?thesis
    by blast
qed

theorem parse_total_witness:
  "list_all (\<lambda>l. trim l = [] \<or> unrecognised l)
     (split_nl (ascii ''hello'' @ [0x0A] @ ascii '' '' @ [0x0A] @ ascii ''[A] world''))
   \<and> parse new_KakaoTalkParser (ascii ''hello'' @ [0x0A] @ ascii '' '' @ [0x0A] @ ascii ''[A] world'')
       = \<lparr>title = [], saveDate = [], messages = []\<rparr>"
proof -
  have h: "list_all (\<lambda>l. trim l = [] \<or> unrecognised l)
     (split_nl (ascii ''hello'' @ [0x0A] @ ascii '' '' @ [0x0A] @ ascii ''[A] world''))"
    by (simp add: unrecognised_def string_defs)
  with parse_total [of "ascii ''hello'' @ [0x0A] @ ascii '' '' @ [0x0A] @ ascii ''[A] world''"]
  show ?thesis
    by blast
qed

section \<open>The text of a date marker\<close>

lemma digits_1_2_Some:
  assumes "digits_1_2 s = Some (g, r)"
  shows "(length g = 1 \<or> length g = 2) \<and> list_all is_digit g"
  using assms by (induction s rule: digits_1_2.induct) (auto split: if_splits)

lemma dateMatch_at_Some:
  assumes "dateMatch_at s = Some (year, month, day, dayOfWeek)"
  shows "length year = 4 \<and> list_all is_digit year
         \<and> (length month = 1 \<or> length month = 2) \<and> list_all is_digit month
         \<and> (length day = 1 \<or> length day = 2) \<and> list_all is_digit day
         \<and> dayOfWeek \<noteq> [] \<and> list_all (\<lambda>c. \<not> is_white_space c) dayOfWeek"
proof -
  from assms obtain y1 y2 y3 y4 r0 r1 r2 r3 r4 r5 where
        y: "year = [y1, y2, y3, y4]"
          "is_digit y1 \<and> is_digit y2 \<and> is_digit y3 \<and> is_digit y4"
    and m: "digits_1_2 (skip_spaces r1) = Some (month, r2)"
    and d: "digits_1_2 (skip_spaces r3) = Some (day, r4)"
    and w: "dayOfWeek = takeWhile (\<lambda>c. \<not> is_white_space c) (skip_spaces r5)"
          "dayOfWeek \<noteq> []"
    unfolding dateMatch_at_def Let_def
    by (auto split: list.splits if_splits option.splits prod.splits)
  have "list_all (\<lambda>c. \<not> is_white_space c) dayOfWeek"
    unfolding w(1) list_all_iff by (auto dest: set_takeWhileD)
  with y w(2) digits_1_2_Some [OF m] digits_1_2_Some [OF d] show ?thesis
    by simp
qed

lemma dateMatch_Some:
  assumes "dateMatch s = Some (year, month, day, dayOfWeek)"
  shows "length year = 4 \<and> list_all is_digit year
         \<and> (length month = 1 \<or> length month = 2) \<and> list_all is_digit month
         \<and> (length day = 1 \<or> length day = 2) \<and> list_all is_digit day
         \<and> dayOfWeek \<noteq> [] \<and> list_all (\<lambda>c. \<not> is_white_space c) dayOfWeek"
  using assms
proof (induction s)
  case Nil
  then show ?case by simp
next
  case (Cons c cs)
  show ?case
  proof (cases "dateMatch_at (c # cs)")
    case None
    with Cons show ?thesis by simp
  next
    case (Some g)
    with Cons.prems have "dateMatch_at (c # cs) = Some (year, month, day, dayOfWeek)"
      by simp
    then show ?thesis by (rule dateMatch_at_Some)
  qed
qed

lemma markers_close [simp]:
  "DateEvent d r \<in> set (messages (chat (close_message st)))
     \<longleftrightarrow> DateEvent d r \<in> set (messages (chat st))"
  by (simp add: close_message_def push_def split: option.splits)

lemma markers_step:
  assumes "DateEvent d r \<in> set (messages (chat (step st l)))"
  shows "DateEvent d r \<in> set (messages (chat st))
         \<or> (r = trim l \<and> startsWith r dashes \<and> js_includes r [nyeon] \<and> js_includes r [wol]
            \<and> d = extractDate r)"
  using assms unfolding step_def Let_def
  by (auto simp: push_def split: if_splits option.splits prod.splits)

lemma markers_loop:
  assumes "DateEvent d r \<in> set (messages (chat (parse_loop st ls)))"
  shows "DateEvent d r \<in> set (messages (chat st))
         \<or> (r \<in> set (map trim ls) \<and> startsWith r dashes \<and> js_includes r [nyeon]
            \<and> js_includes r [wol] \<and> d = extractDate r)"
  using assms
proof (induction ls arbitrary: st)
  case Nil
  then show ?case by simp
next
  case (Cons l ls)
  from Cons.prems have "DateEvent d r \<in> set (messages (chat (parse_loop (step st l) ls)))"
    by simp
  from Cons.IH [OF this] markers_step [of d r st l] show ?case
    by auto
qed

text \<open>
  C9 (as amended). The text of every date marker that \<^verbatim>\<open>parse\<close> produces comes from a
  trimmed line of the input that starts with the fifteen hyphens. When the date
  expression matches in that line, the text is the year (four digits), the month and the
  day (one or two digits each) and the weekday token (not empty, without white space),
  each number followed by its Hangul unit and the parts separated by one space. When the
  expression does not match, the text is the whole trimmed line.
\<close>

theorem marker_text:
  assumes "DateEvent d r \<in> set (messages (parse new_KakaoTalkParser text))"
  shows "r \<in> set (map trim (split_nl text)) \<and> startsWith r dashes
         \<and> (case dateMatch r of
              None \<Rightarrow> d = r
            | Some (year, month, day, dayOfWeek) \<Rightarrow>
                d = year @ [nyeon, 0x20] @ month @ [wol, 0x20] @ day @ [il, 0x20] @ dayOfWeek
                \<and> length year = 4 \<and> list_all is_digit year
                \<and> (length month = 1 \<or> length month = 2) \<and> list_all is_digit month
                \<and> (length day = 1 \<or> length day = 2) \<and> list_all is_digit day
                \<and> dayOfWeek \<noteq> [] \<and> list_all (\<lambda>c. \<not> is_white_space c) dayOfWeek)"
proof -
  let ?init = "\<lparr>chat = new_KakaoTalkParser, currentDate = [], currentMessage = None\<rparr>"
  from assms have "DateEvent d r \<in> set (messages (chat (parse_loop ?init (split_nl text))))"
    by (simp add: parse_def)
  from markers_loop [OF this]
  have r: "r \<in> set (map trim (split_nl text))" "startsWith r dashes"
    and d: "d = extractDate r"
    by (simp_all add: new_KakaoTalkParser_def)
  show ?thesis
  proof (cases "dateMatch r")
    case None
    with r d show ?thesis by (simp add: extractDate_def)
  next
    case (Some g)
    obtain year month day dayOfWeek where g: "g = (year, month, day, dayOfWeek)"
      by (cases g)
    from Some g have "dateMatch r = Some (year, month, day, dayOfWeek)" by simp
    from dateMatch_Some [OF this] this r d show ?thesis
      by (simp add: extractDate_def)
  qed
qed

theorem marker_text_witness:
  "DateEvent sample_date sample_separator
     \<in> set (messages (parse new_KakaoTalkParser (sample_separator @ [0x0D])))
   \<and> dateMatch sample_separator
       = Some (ascii ''2025'', ascii ''5'', ascii ''20'', [0xD654, 0xC694, 0xC77C])
   \<and> sample_date = ascii ''2025'' @ [nyeon, 0x20] @ ascii ''5'' @ [wol, 0x20] @ ascii ''20''
       @ [il, 0x20] @ [0xD654, 0xC694, 0xC77C]"
proof -
  have h: "DateEvent sample_date sample_separator
     \<in> set (messages (parse new_KakaoTalkParser (sample_separator @ [0x0D])))"
    by (simp add: sample_separator_def sample_date_def string_defs parse_defs)
  have m: "dateMatch sample_separator
       = Some (ascii ''2025'', ascii ''5'', ascii ''20'', [0xD654, 0xC694, 0xC77C])"
    by (simp add: sample_separator_def sample_date_def string_defs)
  from marker_text [OF h] h m show ?thesis
    by simp
qed

text \<open>
  The claim as first stated fails: this line is recognised as a separator, but it names
  no day, so the date expression does not match and the text of the marker is the whole
  line, hyphens included.
\<close>

theorem marker_text_counterexample:
  "messages (parse new_KakaoTalkParser
      (dashes @ ascii '' 2025'' @ [nyeon] @ ascii '' 5'' @ [wol, 0x20] @ dashes))
     = [DateEvent (dashes @ ascii '' 2025'' @ [nyeon] @ ascii '' 5'' @ [wol, 0x20] @ dashes)
          (dashes @ ascii '' 2025'' @ [nyeon] @ ascii '' 5'' @ [wol, 0x20] @ dashes)]
   \<and> dateMatch (dashes @ ascii '' 2025'' @ [nyeon] @ ascii '' 5'' @ [wol, 0x20] @ dashes) = None
   \<and> \<not> is_digit (hd (dashes @ ascii '' 2025'' @ [nyeon] @ ascii '' 5'' @ [wol, 0x20] @ dashes))"
  by (simp add: string_defs parse_defs)

section \<open>A second call on the same parser\<close>

lemma step_prefix:
  assumes "currentDate st' = currentDate st" and "currentMessage st' = currentMessage st"
    and "messages (chat st') = pre @ messages (chat st)"
  shows "currentDate (step st' l) = currentDate (step st l)
         \<and> currentMessage (step st' l) = currentMessage (step st l)
         \<and> messages (chat (step st' l)) = pre @ messages (chat (step st l))"
  using assms unfolding step_def Let_def close_message_def push_def
  by (auto split: option.splits prod.splits)

lemma loop_prefix:
  assumes "currentDate st' = currentDate st" and "currentMessage st' = currentMessage st"
    and "messages (chat st') = pre @ messages (chat st)"
  shows "currentMessage (parse_loop st' ls) = currentMessage (parse_loop st ls)
         \<and> messages (chat (parse_loop st' ls)) = pre @ messages (chat (parse_loop st ls))"
  using assms
proof (induction ls arbitrary: st st')
  case Nil
  then show ?case by simp
next
  case (Cons l ls)
  from step_prefix [OF Cons.prems, of l] show ?case
    by (simp add: Cons.IH)
qed

lemma parse_messages_append:
  "messages (parse cd text) = messages cd @ messages (parse new_KakaoTalkParser text)"
proof -
  let ?st = "\<lparr>chat = new_KakaoTalkParser, currentDate = [], currentMessage = None\<rparr>"
  let ?st' = "\<lparr>chat = cd, currentDate = [], currentMessage = None\<rparr>"
  have "currentMessage (parse_loop ?st' (split_nl text))
          = currentMessage (parse_loop ?st (split_nl text))
        \<and> messages (chat (parse_loop ?st' (split_nl text)))
          = messages cd @ messages (chat (parse_loop ?st (split_nl text)))"
    by (rule loop_prefix) (simp_all add: new_KakaoTalkParser_def)
  then show ?thesis
    by (simp add: parse_def close_message_def push_def split: option.splits)
qed

text \<open>
  C1. The field \<^verbatim>\<open>chatData\<close> is set by the constructor only, and \<^verbatim>\<open>parse\<close> pushes onto its
  \<^verbatim>\<open>messages\<close> without emptying it. On a new parser the text of one message gives one
  event; the same text parsed again on the same parser gives two.
\<close>

theorem parse_twice_same_parser:
  "messages (parse new_KakaoTalkParser (ascii ''[A] [1:00] hi''))
     = [MessageEvent \<lparr>sender = ascii ''A'', time = ascii ''1:00'', content = ascii ''hi'',
          date = [], messageType = TText, raw = ascii ''[A] [1:00] hi''\<rparr>]
   \<and> messages (parse (parse new_KakaoTalkParser (ascii ''[A] [1:00] hi'')) (ascii ''[A] [1:00] hi''))
     = [MessageEvent \<lparr>sender = ascii ''A'', time = ascii ''1:00'', content = ascii ''hi'',
          date = [], messageType = TText, raw = ascii ''[A] [1:00] hi''\<rparr>,
        MessageEvent \<lparr>sender = ascii ''A'', time = ascii ''1:00'', content = ascii ''hi'',
          date = [], messageType = TText, raw = ascii ''[A] [1:00] hi''\<rparr>]"
proof -
  have 1: "messages (parse new_KakaoTalkParser (ascii ''[A] [1:00] hi''))
     = [MessageEvent \<lparr>sender = ascii ''A'', time = ascii ''1:00'', content = ascii ''hi'',
          date = [], messageType = TText, raw = ascii ''[A] [1:00] hi''\<rparr>]"
    by (simp add: string_defs parse_defs)
  show ?thesis
    unfolding parse_messages_append [of "parse new_KakaoTalkParser (ascii ''[A] [1:00] hi'')"]
    by (simp add: 1)
qed

text \<open>
  C6. The first call parses a text that is one date separator; the second call, on the
  same parser, parses one message. \<^verbatim>\<open>parse\<close> starts the second call with an empty current
  date, but the marker of the first call is still in \<^verbatim>\<open>messages\<close>: the message has the
  empty date, and the nearest marker before it has the date of the separator.
\<close>

theorem parse_reused_message_date:
  "messages (parse (parse new_KakaoTalkParser sample_separator) (ascii ''[B] [2:00] yo''))
     = [DateEvent sample_date sample_separator,
        MessageEvent \<lparr>sender = ascii ''B'', time = ascii ''2:00'', content = ascii ''yo'',
          date = [], messageType = TText, raw = ascii ''[B] [2:00] yo''\<rparr>]
   \<and> nearest_marker (take 1 (messages
        (parse (parse new_KakaoTalkParser sample_separator) (ascii ''[B] [2:00] yo''))))
     = sample_date
   \<and> sample_date \<noteq> []"
proof -
  have 1: "messages (parse new_KakaoTalkParser sample_separator)
             = [DateEvent sample_date sample_separator]"
    by (simp add: sample_separator_def sample_date_def string_defs parse_defs)
  have 2: "messages (parse new_KakaoTalkParser (ascii ''[B] [2:00] yo''))
             = [MessageEvent \<lparr>sender = ascii ''B'', time = ascii ''2:00'', content = ascii ''yo'',
                  date = [], messageType = TText, raw = ascii ''[B] [2:00] yo''\<rparr>]"
    by (simp add: string_defs parse_defs)
  have 3: "sample_date \<noteq> []"
    by (simp add: sample_date_def ascii_def)
  show ?thesis
    unfolding parse_messages_append [of "parse new_KakaoTalkParser sample_separator"] 1 2
    using 3 by (simp add: nearest_marker_def)
qed

section \<open>Statistics\<close>

lemma bit_length_0: "bit_length 0 = 0"
  by (simp add: bit_length.simps)

lemma bit_length_Suc_0: "bit_length (Suc 0) = Suc 0"
  by (simp add: bit_length.simps [of "Suc 0"] bit_length_0)

lemma bit_length_numeral: "bit_length (numeral k) = Suc (bit_length (numeral k div 2))"
  by (subst bit_length.simps) simp

lemmas percentage_defs = js_percentage_def to_double_def times_100_def math_round_def
  round_even_def Let_def bit_length_0 bit_length_Suc_0 bit_length_numeral

lemma percentage_3_of_4: "js_percentage 3 4 = Finite 75"
  by (simp add: percentage_defs)

lemma percentage_1_of_4: "js_percentage (Suc 0) 4 = Finite 25"
  by (simp add: percentage_defs)

lemma percentage_23_of_40: "js_percentage 23 40 = Finite 57"
  by (simp add: percentage_defs)

lemma length_message_events:
  "length (message_events es) = length (filter is_MessageEvent es)"
  by (induction es rule: message_events.induct) simp_all

lemma length_date_events:
  "length (date_events es) = length (filter is_DateEvent es)"
  by (induction es rule: date_events.induct) simp_all

lemma message_events_map [simp]: "message_events (map MessageEvent ms) = ms"
  by (induction ms) simp_all

lemma chat_of_messages: "message_events (messages (chat_of ms)) = ms"
  by (simp add: chat_of_def)

lemma message_events_Nil:
  "message_events es = [] \<longleftrightarrow> (\<forall>e\<in>set es. \<not> is_MessageEvent e)"
  by (induction es rule: message_events.induct) simp_all

lemma set_uniq [simp]: "set (uniq xs) = set xs"
  by (simp add: uniq_def)

lemma length_uniq: "length (uniq xs) = card (set xs)"
proof -
  have "distinct (uniq xs)" by (simp add: uniq_def)
  then have "card (set (uniq xs)) = length (uniq xs)" by (rule distinct_card)
  then show ?thesis by simp
qed

lemma foldl_set_property:
  "own_entries (foldl (\<lambda>obj k. set_property obj k (f k)) obj0 ks)
     = (\<lambda>k. if k \<in> set ks \<and> k \<noteq> proto_key then Some (f k) else own_entries obj0 k)"
  "prototype_entry (foldl (\<lambda>obj k. set_property obj k (f k)) obj0 ks)
     = (if proto_key \<in> set ks then Some (f proto_key) else prototype_entry obj0)"
  by (induction ks arbitrary: obj0) (auto simp: set_property_def fun_eq_iff)

lemma getSenderStats_fold:
  "getSenderStats msgs senders
     = foldl (\<lambda>obj k. set_property obj k (sender_entry msgs k)) empty_object senders"
  by (simp add: getSenderStats_def Let_def sender_entry_def)

lemma own_entries_lookup:
  "own_entries (senderStats (getStats cd)) s
     = (if s \<in> sender ` set (message_events (messages cd)) \<and> s \<noteq> proto_key
        then Some (sender_entry (message_events (messages cd)) s) else None)"
  by (simp add: getStats_def Let_def getSenderStats_fold foldl_set_property empty_object_def)

lemma prototype_entry_lookup:
  "prototype_entry (senderStats (getStats cd))
     = (if proto_key \<in> sender ` set (message_events (messages cd))
        then Some (sender_entry (message_events (messages cd)) proto_key) else None)"
  by (simp add: getStats_def Let_def getSenderStats_fold foldl_set_property empty_object_def)

lemma get_entry_lookup:
  "get_entry (senderStats (getStats cd)) s
     = (if s \<in> sender ` set (message_events (messages cd))
        then Some (sender_entry (message_events (messages cd)) s) else None)"
  by (simp add: get_entry_def own_entries_lookup prototype_entry_lookup)

text \<open>
  C8 (as amended). \<^verbatim>\<open>getStats\<close> counts the events of type message, the events of type
  date and the distinct senders. For every sender, reading \<^verbatim>\<open>senderStats[sender]\<close> gives
  the number of the sender's messages with the percentage that
  \<^verbatim>\<open>Math.round((count / total) * 100)\<close> gives in binary64 arithmetic, where the quotient is
  rounded before it is multiplied. The entry is an own property of the object under the
  sender's name, except for a sender named \<^verbatim>\<open>__proto__\<close>, whose entry becomes the
  prototype of the object. No other name has an entry.
\<close>

theorem getStats_projection:
  "totalMessages (getStats cd) = length (filter is_MessageEvent (messages cd))
   \<and> totalMessages (getStats cd) = length (message_events (messages cd))
   \<and> totalDays (getStats cd) = length (filter is_DateEvent (messages cd))
   \<and> participants (getStats cd) = card (sender ` set (message_events (messages cd)))
   \<and> (\<forall>s \<in> sender ` set (message_events (messages cd)).
        get_entry (senderStats (getStats cd)) s
          = Some \<lparr>count = length (filter (\<lambda>msg. sender msg = s) (message_events (messages cd))),
                  percentage = js_percentage
                    (length (filter (\<lambda>msg. sender msg = s) (message_events (messages cd))))
                    (totalMessages (getStats cd))\<rparr>
        \<and> own_entries (senderStats (getStats cd)) s
          = (if s = proto_key then None else get_entry (senderStats (getStats cd)) s))
   \<and> (\<forall>s. s \<notin> sender ` set (message_events (messages cd))
        \<longrightarrow> get_entry (senderStats (getStats cd)) s = None
            \<and> own_entries (senderStats (getStats cd)) s = None)
   \<and> prototype_entry (senderStats (getStats cd)) = get_entry (senderStats (getStats cd)) proto_key"
proof -
  have 1: "totalMessages (getStats cd) = length (message_events (messages cd))"
    by (simp add: getStats_def Let_def)
  have 2: "totalDays (getStats cd) = length (filter is_DateEvent (messages cd))"
    by (simp add: getStats_def Let_def length_date_events)
  have 3: "participants (getStats cd) = card (sender ` set (message_events (messages cd)))"
    by (simp add: getStats_def Let_def length_uniq)
  have 4: "get_entry (senderStats (getStats cd)) s
             = Some \<lparr>count = length (filter (\<lambda>msg. sender msg = s) (message_events (messages cd))),
                  percentage = js_percentage
                    (length (filter (\<lambda>msg. sender msg = s) (message_events (messages cd))))
                    (totalMessages (getStats cd))\<rparr>
           \<and> own_entries (senderStats (getStats cd)) s
             = (if s = proto_key then None else get_entry (senderStats (getStats cd)) s)"
    if "s \<in> sender ` set (message_events (messages cd))" for s
    using that unfolding 1 by (simp add: get_entry_lookup own_entries_lookup sender_entry_def)
  have 5: "get_entry (senderStats (getStats cd)) s = None
           \<and> own_entries (senderStats (getStats cd)) s = None"
    if "s \<notin> sender ` set (message_events (messages cd))" for s
    using that by (simp add: get_entry_lookup own_entries_lookup)
  have 6: "prototype_entry (senderStats (getStats cd))
             = get_entry (senderStats (getStats cd)) proto_key"
    by (simp add: get_entry_def)
  from 1 2 3 4 5 6 show ?thesis
    by (simp add: length_message_events)
qed

theorem getStats_projection_witness:
  "totalMessages (getStats (chat_of [message_from (ascii ''A''), message_from (ascii ''A''),
       message_from (ascii ''B''), message_from (ascii ''A'')])) = 4
   \<and> get_entry (senderStats (getStats (chat_of [message_from (ascii ''A''),
       message_from (ascii ''A''), message_from (ascii ''B''), message_from (ascii ''A'')])))
       (ascii ''A'')
       = Some \<lparr>count = 3, percentage = Finite 75\<rparr>
   \<and> own_entries (senderStats (getStats (chat_of [message_from (ascii ''A''),
       message_from (ascii ''A''), message_from (ascii ''B''), message_from (ascii ''A'')])))
       (ascii ''B'')
       = Some \<lparr>count = 1, percentage = Finite 25\<rparr>"
proof -
  let ?ms = "[message_from (ascii ''A''), message_from (ascii ''A''),
       message_from (ascii ''B''), message_from (ascii ''A'')]"
  note T = getStats_projection [of "chat_of ?ms"]
  have ms: "message_events (messages (chat_of ?ms)) = ?ms"
    by (rule chat_of_messages)
  have tm: "totalMessages (getStats (chat_of ?ms)) = 4"
    using T [THEN conjunct1] by (simp add: chat_of_def)
  note S = T [THEN conjunct2, THEN conjunct2, THEN conjunct2, THEN conjunct2, THEN conjunct1,
      THEN bspec]
  have a: "get_entry (senderStats (getStats (chat_of ?ms))) (ascii ''A'')
             = Some \<lparr>count = 3, percentage = Finite 75\<rparr>"
    using S [of "ascii ''A''", THEN conjunct1]
    unfolding ms tm
    by (simp add: message_from_def ascii_def percentage_3_of_4 [unfolded numeral_3_eq_3])
  have b: "get_entry (senderStats (getStats (chat_of ?ms))) (ascii ''B'')
             = Some \<lparr>count = 1, percentage = Finite 25\<rparr>"
    using S [of "ascii ''B''", THEN conjunct1]
    unfolding ms tm
    by (simp add: message_from_def ascii_def percentage_1_of_4)
  have nb: "ascii ''B'' \<noteq> proto_key"
    by (simp add: proto_key_def ascii_def)
  have b': "own_entries (senderStats (getStats (chat_of ?ms))) (ascii ''B'')
             = Some \<lparr>count = 1, percentage = Finite 25\<rparr>"
    using S [of "ascii ''B''", THEN conjunct2] nb
    unfolding ms b
    by (simp add: message_from_def)
  from tm a b' show ?thesis by simp
qed

text \<open>
  A sender named \<^verbatim>\<open>__proto__\<close>: the object has no own property, and the entry is its
  prototype.
\<close>

lemma getStats_proto_sender:
  "participants (getStats (chat_of [message_from proto_key])) = 1
   \<and> own_entries (senderStats (getStats (chat_of [message_from proto_key]))) = Map.empty
   \<and> prototype_entry (senderStats (getStats (chat_of [message_from proto_key])))
       = Some \<lparr>count = 1, percentage = Finite 100\<rparr>"
proof -
  have p: "js_percentage (Suc 0) (Suc 0) = Finite 100"
    by (simp add: percentage_defs)
  have ms: "message_events (messages (chat_of [message_from proto_key]))
              = [message_from proto_key]"
    by (rule chat_of_messages)
  have 1: "participants (getStats (chat_of [message_from proto_key])) = 1"
    by (simp add: getStats_def Let_def ms uniq_def)
  have 2: "own_entries (senderStats (getStats (chat_of [message_from proto_key]))) = Map.empty"
    unfolding fun_eq_iff own_entries_lookup ms by (simp add: message_from_def)
  have 3: "prototype_entry (senderStats (getStats (chat_of [message_from proto_key])))
       = Some \<lparr>count = 1, percentage = Finite 100\<rparr>"
    unfolding prototype_entry_lookup ms by (simp add: message_from_def sender_entry_def p)
  from 1 2 3 show ?thesis by simp
qed

text \<open>
  The claim as first stated fails: with 23 messages of one sender among 40, the exact
  value of \<open>100 * 23 / 40\<close> is 57.5, which rounds to 58. The quotient 23 / 40 is
  rounded down to a binary64 number, its product by 100 is 57.49999999999999, and the
  source's percentage is 57.
\<close>

theorem percentage_counterexample:
  "own_entries (senderStats (getStats (chat_of (replicate 23 (message_from (ascii ''A''))
       @ replicate 17 (message_from (ascii ''B'')))))) (ascii ''A'')
     = Some \<lparr>count = 23, percentage = Finite 57\<rparr>
   \<and> totalMessages (getStats (chat_of (replicate 23 (message_from (ascii ''A''))
       @ replicate 17 (message_from (ascii ''B''))))) = 40
   \<and> round_half_up (100 * 23) 40 = 58"
proof -
  let ?ms = "replicate 23 (message_from (ascii ''A'')) @ replicate 17 (message_from (ascii ''B''))"
  have ms: "message_events (messages (chat_of ?ms)) = ?ms"
    by (rule chat_of_messages)
  have 1: "own_entries (senderStats (getStats (chat_of ?ms))) (ascii ''A'')
             = Some \<lparr>count = 23, percentage = Finite 57\<rparr>"
    unfolding own_entries_lookup ms
    by (simp add: message_from_def sender_entry_def proto_key_def ascii_def filter_replicate
        percentage_23_of_40)
  have 2: "totalMessages (getStats (chat_of ?ms)) = 40"
    unfolding getStats_def Let_def ms by simp
  have 3: "round_half_up (100 * 23) 40 = 58"
    by (simp add: round_half_up_def)
  from 1 2 3 show ?thesis by simp
qed

text \<open>
  C10. Chat data without an event of type message has no message, no participant and an
  object of sender statistics without any entry. For any chat data, an entry is stored
  only for a sender of at least one message, so the total that divides is positive and the
  percentage is a number.
\<close>

theorem getStats_no_messages:
  assumes "\<forall>e\<in>set (messages cd). \<not> is_MessageEvent e"
  shows "totalMessages (getStats cd) = 0 \<and> participants (getStats cd) = 0
         \<and> senderStats (getStats cd) = \<lparr>own_entries = Map.empty, prototype_entry = None\<rparr>
         \<and> (\<forall>cd' s e. own_entries (senderStats (getStats cd')) s = Some e
                      \<or> get_entry (senderStats (getStats cd')) s = Some e
                      \<or> prototype_entry (senderStats (getStats cd')) = Some e
              \<longrightarrow> 0 < count e \<and> count e \<le> totalMessages (getStats cd')
                  \<and> (\<exists>n. percentage e = Finite n))"
proof -
  from assms have none: "message_events (messages cd) = []"
    by (simp add: message_events_Nil)
  then have 1: "totalMessages (getStats cd) = 0" "participants (getStats cd) = 0"
    by (simp_all add: getStats_def Let_def uniq_def)
  from none have "own_entries (senderStats (getStats cd)) = Map.empty"
    and "prototype_entry (senderStats (getStats cd)) = None"
    by (simp_all add: fun_eq_iff own_entries_lookup prototype_entry_lookup)
  then have 2: "senderStats (getStats cd) = \<lparr>own_entries = Map.empty, prototype_entry = None\<rparr>"
    by (cases "senderStats (getStats cd)") simp
  have 3: "0 < count e \<and> count e \<le> totalMessages (getStats cd') \<and> (\<exists>n. percentage e = Finite n)"
    if e: "own_entries (senderStats (getStats cd')) s = Some e
           \<or> get_entry (senderStats (getStats cd')) s = Some e
           \<or> prototype_entry (senderStats (getStats cd')) = Some e" for cd' s e
  proof -
    let ?msgs = "message_events (messages cd')"
    from e obtain k where k: "k \<in> sender ` set ?msgs" and ek: "e = sender_entry ?msgs k"
      by (auto simp: own_entries_lookup get_entry_lookup prototype_entry_lookup
          split: if_splits)
    let ?own = "filter (\<lambda>msg. sender msg = k) ?msgs"
    from ek have c: "count e = length ?own"
      and p: "percentage e = js_percentage (length ?own) (length ?msgs)"
      by (simp_all add: sender_entry_def)
    from k have "?own \<noteq> []"
      by (auto simp: filter_empty_conv)
    then have pos: "0 < length ?own" by simp
    have le: "length ?own \<le> length ?msgs" by simp
    from pos le have "0 < length ?msgs" by linarith
    with pos p have "\<exists>n. percentage e = Finite n"
      by (simp add: js_percentage_def)
    with pos le c show ?thesis
      by (simp add: getStats_def Let_def)
  qed
  from 1 2 3 show ?thesis by blast
qed

theorem getStats_no_messages_witness:
  "totalMessages (getStats \<lparr>title = [], saveDate = [],
       messages = [DateEvent sample_date sample_separator]\<rparr>) = 0
   \<and> participants (getStats \<lparr>title = [], saveDate = [],
       messages = [DateEvent sample_date sample_separator]\<rparr>) = 0
   \<and> senderStats (getStats \<lparr>title = [], saveDate = [],
       messages = [DateEvent sample_date sample_separator]\<rparr>)
       = \<lparr>own_entries = Map.empty, prototype_entry = None\<rparr>
   \<and> totalDays (getStats \<lparr>title = [], saveDate = [],
       messages = [DateEvent sample_date sample_separator]\<rparr>) = 1"
proof -
  have h: "\<forall>e\<in>set (messages \<lparr>title = [], saveDate = [],
       messages = [DateEvent sample_date sample_separator]\<rparr>). \<not> is_MessageEvent e"
    by simp
  have d: "totalDays (getStats \<lparr>title = [], saveDate = [],
       messages = [DateEvent sample_date sample_separator]\<rparr>) = 1"
    by (simp add: getStats_def Let_def)
  from getStats_no_messages [OF h] d show ?thesis
    by simp
qed

end
